theory Spec2Isabelle
  imports Main "HOL-Library.Word"
begin

section \<open>The flat tensor buffer of TensorTest.c\<close>

text \<open>
  The C file keeps four globals, \<^verbatim>\<open>int8_t *data\<close> and the \<^verbatim>\<open>int32_t\<close> extents
  \<^verbatim>\<open>width\<close>, \<^verbatim>\<open>height\<close>, \<^verbatim>\<open>depth\<close>, and exports three JNI entry points that
  allocate the buffer, read one byte and write one byte.

  \<^item> \<^verbatim>\<open>jint\<close> is a 32-bit word; \<open>sint\<close> reads it as the signed value the C code works
    with. Arithmetic on it wraps around (two's complement), which is what the JNI
    targets compute where C itself leaves signed overflow undefined.
  \<^item> \<^verbatim>\<open>jbyte\<close> is an 8-bit word.
  \<^item> The pointer \<^verbatim>\<open>data\<close> is \<open>None\<close> while it is null (before the first allocation,
    or after \<^verbatim>\<open>malloc\<close> has refused) and \<open>Some bs\<close> while it points to an allocated
    region whose bytes are \<open>bs\<close>.
\<close>

type_synonym jint = "32 word"
type_synonym jbyte = "8 word"

record tensor_state =
  data :: "jbyte list option"
  width :: jint
  height :: jint
  depth :: jint

text \<open>C zero-initialises the globals: a null pointer and three zero extents.\<close>

definition initial_state :: tensor_state where
  "initial_state = \<lparr>data = None, width = 0, height = 0, depth = 0\<rparr>"

text \<open>
  The code has no error returns. What a call can do instead of returning is leave defined
  behaviour, by dereferencing the null pointer or by accessing a byte outside the
  allocated region; \<open>Inl\<close> of a \<open>fault\<close> stands for that. A call that returns yields
  \<open>Inr\<close> of its result and the state it leaves behind.
\<close>

datatype fault = NullDereference | OutOfBounds

type_synonym 'a outcome = "fault + 'a \<times> tensor_state"

subsection \<open>Allocation\<close>

text \<open>
  \<^verbatim>\<open>malloc\<close> belongs to the environment. For a request of \<open>n\<close> bytes the allocator either
  refuses (\<open>None\<close>, the null pointer) or hands out a region of exactly \<open>n\<close> bytes whose
  contents it alone decides: \<open>fill p\<close> is the byte found at position \<open>p\<close>.
\<close>

type_synonym allocator = "nat \<Rightarrow> (nat \<Rightarrow> jbyte) option"

definition malloc :: "allocator \<Rightarrow> nat \<Rightarrow> jbyte list option" where
  "malloc alloc n = (case alloc n of None \<Rightarrow> None | Some fill \<Rightarrow> Some (map fill [0..<n]))"

text \<open>
  The argument of \<^verbatim>\<open>malloc\<close> is the \<^verbatim>\<open>int\<close> product converted to \<^verbatim>\<open>size_t\<close>
  (64 bits): the signed value modulo \<open>2 ^ 64\<close>.
\<close>

definition to_size_t :: "jint \<Rightarrow> nat" where
  "to_size_t x = nat (sint x mod 2 ^ 64)"

definition initNativeFlatArray ::
    "allocator \<Rightarrow> jint \<Rightarrow> jint \<Rightarrow> jint \<Rightarrow> tensor_state \<Rightarrow> unit outcome" where
  "initNativeFlatArray alloc w h d s =
     (let s1 = s\<lparr>width := w\<rparr>;
          s2 = s1\<lparr>height := h\<rparr>;
          s3 = s2\<lparr>depth := d\<rparr>
      in Inr ((), s3\<lparr>data := malloc alloc (to_size_t (width s3 * height s3 * depth s3))\<rparr>))"

subsection \<open>Access\<close>

text \<open>
  Both accessors subscript \<^verbatim>\<open>data\<close> with the same \<^verbatim>\<open>int\<close> expression
  \<^verbatim>\<open>k + j * depth + i * depth * height\<close>.
\<close>

definition offset :: "jint \<Rightarrow> jint \<Rightarrow> jint \<Rightarrow> tensor_state \<Rightarrow> jint" where
  "offset i j k s = k + j * depth s + i * depth s * height s"

text \<open>
  \<^verbatim>\<open>data[n]\<close> for a signed index \<open>n\<close>: defined only when the pointer is not null and
  \<open>n\<close> lies inside the region.
\<close>

definition subscript_read :: "int \<Rightarrow> tensor_state \<Rightarrow> jbyte outcome" where
  "subscript_read n s =
     (case data s of
        None \<Rightarrow> Inl NullDereference
      | Some bs \<Rightarrow>
          if 0 \<le> n \<and> n < int (length bs) then Inr (bs ! nat n, s) else Inl OutOfBounds)"

definition subscript_write :: "int \<Rightarrow> jbyte \<Rightarrow> tensor_state \<Rightarrow> unit outcome" where
  "subscript_write n v s =
     (case data s of
        None \<Rightarrow> Inl NullDereference
      | Some bs \<Rightarrow>
          if 0 \<le> n \<and> n < int (length bs)
          then Inr ((), s\<lparr>data := Some (bs[nat n := v])\<rparr>)
          else Inl OutOfBounds)"

definition getNativeFlatArray :: "jint \<Rightarrow> jint \<Rightarrow> jint \<Rightarrow> tensor_state \<Rightarrow> jbyte outcome" where
  "getNativeFlatArray i j k s = subscript_read (sint (offset i j k s)) s"

definition setNativeFlatArray ::
    "jint \<Rightarrow> jint \<Rightarrow> jint \<Rightarrow> jbyte \<Rightarrow> tensor_state \<Rightarrow> unit outcome" where
  "setNativeFlatArray i j k v s = subscript_write (sint (offset i j k s)) v s"

subsection \<open>The specification's vocabulary\<close>

text \<open>
  The addressing formula as the specification writes it, over unbounded integers, for
  comparison with the 32-bit \<open>offset\<close> of the code: \<open>H\<close> and \<open>D\<close> are the height and
  the depth.
\<close>

definition spec_offset :: "int \<Rightarrow> int \<Rightarrow> int \<Rightarrow> int \<Rightarrow> int \<Rightarrow> int" where
  "spec_offset H D i j k = k + j * D + i * D * H"

text \<open>A coordinate is valid when every component lies below its extent.\<close>

definition in_bounds :: "jint \<Rightarrow> jint \<Rightarrow> jint \<Rightarrow> tensor_state \<Rightarrow> bool" where
  "in_bounds i j k s \<longleftrightarrow>
     0 \<le> sint i \<and> sint i < sint (width s) \<and>
     0 \<le> sint j \<and> sint j < sint (height s) \<and>
     0 \<le> sint k \<and> sint k < sint (depth s)"

text \<open>The product of the extents in unbounded arithmetic.\<close>

definition extent_product :: "tensor_state \<Rightarrow> int" where
  "extent_product s = sint (width s) * sint (height s) * sint (depth s)"

text \<open>
  The invariant of the data model: the storage is present, the extents are non-negative,
  and the storage length is the product of the extents, a product below \<open>2 ^ 31\<close>. This
  is what \<open>initNativeFlatArray\<close> establishes when the allocation is granted and the
  product does not wrap; it is not what every call of it establishes.
\<close>

definition valid_buffer :: "tensor_state \<Rightarrow> bool" where
  "valid_buffer s \<longleftrightarrow>
     (case data s of
        None \<Rightarrow> False
      | Some bs \<Rightarrow>
          0 \<le> sint (width s) \<and> 0 \<le> sint (height s) \<and> 0 \<le> sint (depth s) \<and>
          extent_product s < 2 ^ 31 \<and> int (length bs) = extent_product s)"


text \<open>
  A buffer has been initialized once \<open>initNativeFlatArray\<close> has returned, from whatever
  state and with whatever extents and allocator, and as long as only the accessors have
  been called since.
\<close>

inductive initialized :: "tensor_state \<Rightarrow> bool" where
  init: "initNativeFlatArray alloc w h d s = Inr ((), s') \<Longrightarrow> initialized s'"
| get: "initialized s \<Longrightarrow> getNativeFlatArray i j k s = Inr (b, s') \<Longrightarrow> initialized s'"
| set: "initialized s \<Longrightarrow> setNativeFlatArray i j k v s = Inr ((), s') \<Longrightarrow> initialized s'"

text \<open>Three allocators for concrete runs.\<close>

definition refuse :: allocator where
  "refuse = (\<lambda>n. None)"

definition grant :: "jbyte \<Rightarrow> allocator" where
  "grant b = (\<lambda>n. Some (\<lambda>p. b))"

definition grant_counting :: allocator where
  "grant_counting = (\<lambda>n. Some of_nat)"

text \<open>
  A buffer of extents 2, 3, 4 whose byte at position \<open>p\<close> is \<open>p\<close> itself, so that
  a read shows which position it addressed.
\<close>

definition sample_buffer :: tensor_state where
  "sample_buffer = \<lparr>data = Some (map of_nat [0..<24]), width = 2, height = 3, depth = 4\<rparr>"

text \<open>
  The state that a granted allocation for the extents 65537, 65537, 1 leaves: the
  product \<open>2 ^ 32 + 131073\<close> wraps to 131073, the number of zero bytes handed out.
\<close>

definition wrapped_buffer :: tensor_state where
  "wrapped_buffer =
     \<lparr>data = Some (replicate 131073 0), width = 65537, height = 65537, depth = 1\<rparr>"

text \<open>The state that a refused allocation for the extents 2, 2, 2 leaves.\<close>

definition refused_buffer :: tensor_state where
  "refused_buffer = \<lparr>data = None, width = 2, height = 2, depth = 2\<rparr>"

section \<open>Arithmetic of the addressing formula\<close>

lemma spec_offset_nonneg:
  assumes "0 \<le> i" "0 \<le> j" "0 \<le> k" "0 \<le> H" "0 \<le> D"
  shows "0 \<le> spec_offset H D i j k"
  using assms by (simp add: spec_offset_def)

lemma spec_offset_less:
  assumes i: "0 \<le> i" "i < W" and j: "0 \<le> j" "j < H" and k: "0 \<le> k" "k < D"
  shows "spec_offset H D i j k < W * H * D"
proof -
  have "j + 1 \<le> H" using j by simp
  then have "(j + 1) * D \<le> H * D" using k by (intro mult_right_mono) auto
  then have a: "k + j * D < H * D" using k by (simp add: algebra_simps)
  have "i + 1 \<le> W" using i by simp
  then have "(i + 1) * (H * D) \<le> W * (H * D)" using j k by (intro mult_right_mono) auto
  then have "i * D * H + H * D \<le> W * H * D" by (simp add: algebra_simps)
  with a show ?thesis by (simp add: spec_offset_def)
qed

lemma spec_offset_inj:
  assumes "0 \<le> j" "j < H" "0 \<le> k" "k < D" "0 \<le> j'" "j' < H" "0 \<le> k'" "k' < D"
    and eq: "spec_offset H D i j k = spec_offset H D i' j' k'"
  shows "i = i' \<and> j = j' \<and> k = k'"
proof -
  have e: "k + D * (j + H * i) = k' + D * (j' + H * i')"
    using eq by (simp add: spec_offset_def algebra_simps)
  have "(k + D * (j + H * i)) mod D = k" "(k' + D * (j' + H * i')) mod D = k'"
    using assms by simp_all
  with e have k: "k = k'" by simp
  with e assms have e2: "j + H * i = j' + H * i'" by simp
  have "(j + H * i) mod H = j" "(j' + H * i') mod H = j'"
    using assms by simp_all
  with e2 have j: "j = j'" by simp
  with e2 assms have "i = i'" by simp
  with j k show ?thesis by simp
qed

subsection \<open>From 32-bit words to integers\<close>

lemma sint_jint_less: "sint (x :: jint) < 2 ^ 31"
  using sint_lt [of x] by simp

lemma sint_jint_ge: "- (2 ^ 31) \<le> sint (x :: jint)"
  using sint_ge [of x] by simp

lemma sint_word_of_int_32:
  "- (2 ^ 31) \<le> x \<Longrightarrow> x < 2 ^ 31 \<Longrightarrow> sint (word_of_int x :: jint) = x"
  by (simp add: signed_of_int signed_take_bit_int_eq_self)

lemma offset_word_of_int:
  "offset i j k s =
     word_of_int (spec_offset (sint (height s)) (sint (depth s)) (sint i) (sint j) (sint k))"
  by (simp add: offset_def spec_offset_def)

lemma sint_product:
  assumes "0 \<le> sint w * sint h * sint d" "sint w * sint h * sint d < 2 ^ 31"
  shows "sint (w * h * d :: jint) = sint w * sint h * sint d"
proof -
  from sint_word_of_int_32 [of "sint w * sint h * sint d"] assms
  show ?thesis by simp
qed

lemma to_size_t_nonneg:
  assumes "0 \<le> sint x"
  shows "to_size_t x = nat (sint x)"
proof -
  have "sint x < 2 ^ 64" using sint_jint_less [of x] by simp
  with assms show ?thesis by (simp add: to_size_t_def)
qed

lemma to_size_t_neg:
  assumes "sint x < 0"
  shows "to_size_t x = nat (2 ^ 64 + sint x)"
proof -
  have lo: "- (2 ^ 64) \<le> sint x" using sint_jint_ge [of x] by simp
  have "sint x mod 2 ^ 64 = (2 ^ 64 + sint x) mod 2 ^ 64" by simp
  also have "\<dots> = 2 ^ 64 + sint x"
    using assms lo by (intro mod_pos_pos_trivial) auto
  finally show ?thesis by (simp add: to_size_t_def)
qed

lemma malloc_length: "malloc alloc n = Some bs \<Longrightarrow> length bs = n"
  by (auto simp: malloc_def split: option.splits)

subsection \<open>The offset on valid coordinates\<close>

lemma offset_exact:
  assumes fit: "extent_product s \<le> 2 ^ 31" and inb: "in_bounds i j k s"
  shows "sint (offset i j k s) =
           spec_offset (sint (height s)) (sint (depth s)) (sint i) (sint j) (sint k)"
    and "0 \<le> sint (offset i j k s)"
    and "sint (offset i j k s) < extent_product s"
proof -
  let ?n = "spec_offset (sint (height s)) (sint (depth s)) (sint i) (sint j) (sint k)"
  from inb have b: "0 \<le> sint i" "sint i < sint (width s)" "0 \<le> sint j"
      "sint j < sint (height s)" "0 \<le> sint k" "sint k < sint (depth s)"
    by (simp_all add: in_bounds_def)
  from b have lo: "0 \<le> ?n" by (intro spec_offset_nonneg) auto
  from b have hi: "?n < extent_product s"
    unfolding extent_product_def by (intro spec_offset_less) auto
  from lo hi fit have "sint (word_of_int ?n :: jint) = ?n"
    by (intro sint_word_of_int_32) auto
  then show eq: "sint (offset i j k s) = ?n" by (simp only: offset_word_of_int)
  from lo eq show "0 \<le> sint (offset i j k s)" by simp
  from hi eq show "sint (offset i j k s) < extent_product s" by simp
qed

lemma offset_in_product:
  assumes inb: "in_bounds i j k s"
  shows "0 \<le> spec_offset (sint (height s)) (sint (depth s)) (sint i) (sint j) (sint k)"
    and "spec_offset (sint (height s)) (sint (depth s)) (sint i) (sint j) (sint k)
           < extent_product s"
proof -
  from inb have b: "0 \<le> sint i" "sint i < sint (width s)" "0 \<le> sint j"
      "sint j < sint (height s)" "0 \<le> sint k" "sint k < sint (depth s)"
    by (simp_all add: in_bounds_def)
  from b show "0 \<le> spec_offset (sint (height s)) (sint (depth s)) (sint i) (sint j) (sint k)"
    by (intro spec_offset_nonneg) auto
  from b show "spec_offset (sint (height s)) (sint (depth s)) (sint i) (sint j) (sint k)
           < extent_product s"
    unfolding extent_product_def by (intro spec_offset_less) auto
qed

lemma word_of_int_inj_32:
  assumes "0 \<le> m" "m < 2 ^ 32" "0 \<le> n" "n < 2 ^ 32"
    and "(word_of_int m :: jint) = word_of_int n"
  shows "m = n"
proof -
  from assms(5) have "take_bit 32 m = take_bit 32 n"
    by (simp add: word_of_int_eq_iff)
  with assms(1-4) show ?thesis by (simp add: take_bit_int_eq_self)
qed

lemma offset_inj_on_bounds:
  assumes fit: "extent_product s \<le> 2 ^ 32"
    and a: "in_bounds i j k s" and b: "in_bounds i' j' k' s"
    and eq: "offset i j k s = offset i' j' k' s"
  shows "i = i' \<and> j = j' \<and> k = k'"
proof -
  let ?H = "sint (height s)" and ?D = "sint (depth s)"
  let ?m = "spec_offset ?H ?D (sint i) (sint j) (sint k)"
  let ?n = "spec_offset ?H ?D (sint i') (sint j') (sint k')"
  from offset_in_product [OF a] fit have m: "0 \<le> ?m" "?m < 2 ^ 32" by simp_all
  from offset_in_product [OF b] fit have n: "0 \<le> ?n" "?n < 2 ^ 32" by simp_all
  from eq have "(word_of_int ?m :: jint) = word_of_int ?n"
    by (simp only: offset_word_of_int)
  with m n have "?m = ?n" by (rule word_of_int_inj_32)
  moreover from a b have "0 \<le> sint j" "sint j < ?H" "0 \<le> sint k" "sint k < ?D"
      "0 \<le> sint j'" "sint j' < ?H" "0 \<le> sint k'" "sint k' < ?D"
    by (simp_all add: in_bounds_def)
  ultimately have "sint i = sint i' \<and> sint j = sint j' \<and> sint k = sint k'"
    by (intro spec_offset_inj)
  then show ?thesis by (auto intro: signed_word_eqI)
qed


lemma valid_buffer_data:
  "valid_buffer s \<Longrightarrow> \<exists>bs. data s = Some bs \<and> int (length bs) = extent_product s"
  by (simp add: valid_buffer_def split: option.splits)

lemma init_result:
  "initNativeFlatArray alloc w h d s =
     Inr ((), \<lparr>data = malloc alloc (to_size_t (w * h * d)), width = w, height = h, depth = d\<rparr>)"
  by (cases s) (simp add: initNativeFlatArray_def)

lemma valid_buffer_iff_invariant:
  assumes d: "data s = Some bs"
    and len: "length bs = to_size_t (width s * height s * depth s)"
    and small: "length bs < 2 ^ 63"
    and nonneg: "0 \<le> sint (width s)" "0 \<le> sint (height s)" "0 \<le> sint (depth s)"
  shows "valid_buffer s \<longleftrightarrow> int (length bs) = extent_product s"
proof
  assume "valid_buffer s"
  with d show "int (length bs) = extent_product s" by (simp add: valid_buffer_def)
next
  assume inv: "int (length bs) = extent_product s"
  let ?p = "width s * height s * depth s"
  have pos: "0 \<le> sint ?p"
  proof (rule ccontr)
    assume "\<not> 0 \<le> sint ?p"
    then have neg: "sint ?p < 0" by simp
    from to_size_t_neg [OF neg] len have "int (length bs) = 2 ^ 64 + sint ?p"
      using sint_jint_ge [of ?p] by simp
    with sint_jint_ge [of ?p] small show False by simp
  qed
  from to_size_t_nonneg [OF pos] len have "int (length bs) = sint ?p" using pos by simp
  with sint_jint_less [of ?p] inv have "extent_product s < 2 ^ 31" by simp
  with d inv nonneg show "valid_buffer s" by (simp add: valid_buffer_def)
qed

subsection \<open>The accessors under the invariant\<close>




lemma sample_in_bounds: "in_bounds 1 2 3 sample_buffer"
  by (simp add: in_bounds_def sample_buffer_def)

subsection \<open>What the calls preserve\<close>

lemma get_keeps_state: "getNativeFlatArray i j k s = Inr (b, s') \<Longrightarrow> s' = s"
  by (auto simp: getNativeFlatArray_def subscript_read_def split: option.splits if_splits)

lemma set_keeps_extents:
  assumes "setNativeFlatArray i j k v s = Inr ((), s')"
  shows "width s' = width s \<and> height s' = height s \<and> depth s' = depth s"
  using assms
  by (auto simp: setNativeFlatArray_def subscript_write_def split: option.splits if_splits)

lemma set_keeps_length:
  assumes "setNativeFlatArray i j k v s = Inr ((), s')" "data s' = Some cs"
  shows "\<exists>bs. data s = Some bs \<and> length cs = length bs"
  using assms
  by (auto simp: setNativeFlatArray_def subscript_write_def split: option.splits if_splits)



subsection \<open>Concrete allocations\<close>

lemma malloc_refuse: "malloc refuse n = None"
  by (simp add: malloc_def refuse_def)

lemma malloc_grant: "malloc (grant b) n = Some (replicate n b)"
  by (simp add: malloc_def grant_def map_replicate_const)

lemma malloc_grant_counting: "malloc grant_counting n = Some (map of_nat [0..<n])"
  by (simp add: malloc_def grant_counting_def)

lemma init_sample:
  "initNativeFlatArray grant_counting 2 3 4 initial_state = Inr ((), sample_buffer)"
proof -
  have "to_size_t (2 * 3 * 4) = 24" by (simp add: to_size_t_def)
  then show ?thesis
    by (simp only: init_result malloc_grant_counting sample_buffer_def)
qed


subsection \<open>Buffers that have been initialized\<close>

lemma initialized_length:
  "initialized s \<Longrightarrow> data s = Some bs \<Longrightarrow>
     length bs = to_size_t (width s * height s * depth s)"
proof (induction arbitrary: bs rule: initialized.induct)
  case (init alloc w h d s s')
  then show ?case by (auto simp: init_result dest: malloc_length)
next
  case (get s i j k b s')
  from get.hyps(2) have "s' = s" by (rule get_keeps_state)
  with get show ?case by simp
next
  case (set s i j k v s')
  from set_keeps_length [OF set.hyps(2) set.prems] obtain cs
    where "data s = Some cs" "length bs = length cs" by blast
  with set.IH [of cs] set_keeps_extents [OF set.hyps(2)] show ?case by simp
qed

lemma size_covers_product:
  assumes "sint w * sint h * sint d \<le> 2 ^ 31"
  shows "sint w * sint h * sint d \<le> int (to_size_t (w * h * d))"
proof -
  let ?P = "sint w * sint h * sint d"
  consider "?P < 0" | "0 \<le> ?P" "?P < 2 ^ 31" | "?P = 2 ^ 31"
    using assms by linarith
  then show ?thesis
  proof cases
    case 1
    then show ?thesis by simp
  next
    case 2
    from sint_product [OF 2] have "sint (w * h * d) = ?P" .
    with 2 to_size_t_nonneg [of "w * h * d"] show ?thesis by simp
  next
    case 3
    have "w * h * d = word_of_int ?P" by simp
    also have "\<dots> = (word_of_int (2 ^ 31) :: jint)" by (simp only: 3)
    finally have "sint (w * h * d) = - (2 ^ 31)" by simp
    with to_size_t_neg [of "w * h * d"] 3 show ?thesis by simp
  qed
qed

lemma initialized_covers:
  assumes "initialized s" "data s = Some bs" "extent_product s \<le> 2 ^ 31"
  shows "extent_product s \<le> int (length bs)"
  using size_covers_product [of "width s" "height s" "depth s"] assms(3)
    initialized_length [OF assms(1,2)]
  by (simp add: extent_product_def)

lemma get_on_covered:
  assumes d: "data s = Some bs" and fit: "extent_product s \<le> 2 ^ 31"
    and cov: "extent_product s \<le> int (length bs)" and inb: "in_bounds i j k s"
  shows "getNativeFlatArray i j k s =
     Inr (bs ! nat (spec_offset (sint (height s)) (sint (depth s)) (sint i) (sint j) (sint k)), s)"
  using offset_exact [OF fit inb] cov d
  by (simp add: getNativeFlatArray_def subscript_read_def)

lemma set_on_covered:
  assumes d: "data s = Some bs" and fit: "extent_product s \<le> 2 ^ 31"
    and cov: "extent_product s \<le> int (length bs)" and inb: "in_bounds i j k s"
  shows "setNativeFlatArray i j k v s =
     Inr ((), s\<lparr>data := Some (bs[nat (spec_offset (sint (height s)) (sint (depth s))
                                       (sint i) (sint j) (sint k)) := v])\<rparr>)"
  using offset_exact [OF fit inb] cov d
  by (simp add: setNativeFlatArray_def subscript_write_def)

lemma index_on_covered:
  assumes fit: "extent_product s \<le> 2 ^ 31"
    and cov: "extent_product s \<le> int (length bs)" and inb: "in_bounds i j k s"
  shows "nat (spec_offset (sint (height s)) (sint (depth s)) (sint i) (sint j) (sint k))
           < length bs"
  using offset_exact [OF fit inb] cov by simp

lemma set_result:
  assumes "setNativeFlatArray i j k v s = Inr ((), s')"
  shows "\<exists>bs. data s = Some bs \<and> 0 \<le> sint (offset i j k s) \<and>
              sint (offset i j k s) < int (length bs) \<and>
              s' = s\<lparr>data := Some (bs[nat (sint (offset i j k s)) := v])\<rparr>"
  using assms
  by (auto simp: setNativeFlatArray_def subscript_write_def split: option.splits if_splits)

lemma set_then_get:
  assumes "setNativeFlatArray i j k v s = Inr ((), s')"
  shows "getNativeFlatArray i j k s' = Inr (v, s')"
proof -
  from set_result [OF assms] obtain bs where
    d: "data s = Some bs" and r: "0 \<le> sint (offset i j k s)"
      "sint (offset i j k s) < int (length bs)"
    and s': "s' = s\<lparr>data := Some (bs[nat (sint (offset i j k s)) := v])\<rparr>"
    by blast
  have o: "offset i j k s' = offset i j k s" by (simp add: s' offset_def)
  from r show ?thesis
    by (simp add: getNativeFlatArray_def subscript_read_def o) (simp add: s')
qed

lemma get_depends_on:
  assumes "data s = data t" "height s = height t" "depth s = depth t"
    and "getNativeFlatArray i j k s = Inr (b, s')"
  shows "getNativeFlatArray i j k t = Inr (b, t)"
  using assms
  by (auto simp: getNativeFlatArray_def subscript_read_def offset_def
      split: option.splits if_splits)

lemma set_depends_on:
  assumes "data s = data t" "height s = height t" "depth s = depth t"
    and "setNativeFlatArray i j k v s = Inr ((), s')"
  shows "\<exists>t'. setNativeFlatArray i j k v t = Inr ((), t') \<and> data t' = data s' \<and>
           width t' = width t \<and> height t' = height t \<and> depth t' = depth t"
  using assms
  by (auto simp: setNativeFlatArray_def subscript_write_def offset_def
      split: option.splits if_splits)

subsection \<open>Concrete initialized buffers\<close>

lemma initialized_sample: "initialized sample_buffer"
  by (rule initialized.init [OF init_sample])

lemma sample_fit: "extent_product sample_buffer \<le> 2 ^ 31"
  by (simp add: extent_product_def sample_buffer_def)

lemma sample_data: "data sample_buffer \<noteq> None"
  by (simp add: sample_buffer_def)

lemma init_wrapped:
  "initNativeFlatArray (grant 0) 65537 65537 1 initial_state = Inr ((), wrapped_buffer)"
proof -
  have "to_size_t (65537 * 65537 * 1) = 131073" by (simp add: to_size_t_def)
  then show ?thesis by (simp only: init_result malloc_grant wrapped_buffer_def)
qed

lemma init_refused:
  "initNativeFlatArray refuse 2 2 2 initial_state = Inr ((), refused_buffer)"
  by (simp only: init_result malloc_refuse refused_buffer_def)

lemma initialized_wrapped: "initialized wrapped_buffer"
  by (rule initialized.init [OF init_wrapped])

lemma initialized_refused: "initialized refused_buffer"
  by (rule initialized.init [OF init_refused])

subsection \<open>The bounds on the product are sharp\<close>

text \<open>
  Every offset below the product of positive extents belongs to a coordinate within
  bounds. So a product above \<open>2 ^ 31\<close> has a coordinate whose 32-bit offset is negative,
  and a product above \<open>2 ^ 32\<close> has two coordinates whose 32-bit offsets coincide.
\<close>

lemma coords_of_offset:
  fixes n W H D :: int
  assumes H: "0 < H" and D: "0 < D" and n: "0 \<le> n" "n < W * H * D"
  shows "0 \<le> n div (D * H) \<and> n div (D * H) < W \<and>
         0 \<le> (n div D) mod H \<and> (n div D) mod H < H \<and>
         0 \<le> n mod D \<and> n mod D < D \<and>
         spec_offset H D (n div (D * H)) ((n div D) mod H) (n mod D) = n"
proof -
  from H D have c: "0 < D * H" by simp
  have i0: "0 \<le> n div (D * H)" using n(1) c by (simp add: pos_imp_zdiv_nonneg_iff)
  have iW: "n div (D * H) < W"
  proof (rule ccontr)
    assume "\<not> n div (D * H) < W"
    then have "W \<le> n div (D * H)" by simp
    then have "W * (D * H) \<le> n div (D * H) * (D * H)"
      using c by (intro mult_right_mono) auto
    also have "\<dots> \<le> n div (D * H) * (D * H) + n mod (D * H)"
      using c by simp
    also have "\<dots> = n" by (rule div_mult_mod_eq)
    finally show False using n(2) by (simp add: algebra_simps)
  qed
  have j: "0 \<le> (n div D) mod H" "(n div D) mod H < H" using H by simp_all
  have k: "0 \<le> n mod D" "n mod D < D" using D by simp_all
  have q: "n div (D * H) = (n div D) div H" using H by (simp add: zdiv_zmult2_eq)
  define a where "a = n div D"
  define q where "q = a div H"
  define r where "r = a mod H"
  define c where "c = n mod D"
  have e1: "a = H * q + r" unfolding q_def r_def by simp
  have e2: "n = D * a + c" unfolding a_def c_def by simp
  have "spec_offset H D q r c = c + D * (H * q + r)"
    by (simp add: spec_offset_def algebra_simps)
  also have "\<dots> = c + D * a" by (simp only: e1)
  also have "\<dots> = n" using e2 by simp
  finally have "spec_offset H D (n div (D * H)) ((n div D) mod H) (n mod D) = n"
    by (simp only: q q_def r_def c_def a_def)
  with i0 iW j k show ?thesis by simp
qed

lemma in_bounds_of_offset:
  assumes H: "0 < sint (height s)" and D: "0 < sint (depth s)"
    and n: "0 \<le> n" "n < extent_product s"
  shows "\<exists>i j k. in_bounds i j k s \<and>
           spec_offset (sint (height s)) (sint (depth s)) (sint i) (sint j) (sint k) = n"
proof -
  let ?W = "sint (width s)" and ?H = "sint (height s)" and ?D = "sint (depth s)"
  let ?i = "n div (?D * ?H)" and ?j = "(n div ?D) mod ?H" and ?k = "n mod ?D"
  from n(2) have "n < ?W * ?H * ?D" by (simp add: extent_product_def)
  from coords_of_offset [OF H D n(1) this]
  have c: "0 \<le> ?i" "?i < ?W" "0 \<le> ?j" "?j < ?H" "0 \<le> ?k" "?k < ?D"
      "spec_offset ?H ?D ?i ?j ?k = n"
    by simp_all
  have si: "sint (word_of_int ?i :: jint) = ?i"
    using c(1,2) sint_jint_less [of "width s"] by (intro sint_word_of_int_32) auto
  have sj: "sint (word_of_int ?j :: jint) = ?j"
    using c(3,4) sint_jint_less [of "height s"] by (intro sint_word_of_int_32) auto
  have sk: "sint (word_of_int ?k :: jint) = ?k"
    using c(5,6) sint_jint_less [of "depth s"] by (intro sint_word_of_int_32) auto
  have "in_bounds (word_of_int ?i) (word_of_int ?j) (word_of_int ?k) s"
    unfolding in_bounds_def si sj sk using c by simp
  moreover have "spec_offset ?H ?D (sint (word_of_int ?i :: jint))
      (sint (word_of_int ?j :: jint)) (sint (word_of_int ?k :: jint)) = n"
    unfolding si sj sk by (rule c(7))
  ultimately show ?thesis by blast
qed

lemma offset_collision_beyond:
  assumes H: "0 < sint (height s)" and D: "0 < sint (depth s)"
    and big: "2 ^ 32 < extent_product s"
  shows "\<exists>i j k i' j' k'. in_bounds i j k s \<and> in_bounds i' j' k' s \<and>
           (i, j, k) \<noteq> (i', j', k') \<and> offset i j k s = offset i' j' k' s"
proof -
  let ?H = "sint (height s)" and ?D = "sint (depth s)"
  from big have z: "(0::int) \<le> 0" "0 < extent_product s" by simp_all
  from in_bounds_of_offset [OF H D z] obtain i j k
    where a: "in_bounds i j k s" "spec_offset ?H ?D (sint i) (sint j) (sint k) = 0"
    by blast
  from big have w: "(0::int) \<le> 2 ^ 32" "2 ^ 32 < extent_product s" by simp_all
  from in_bounds_of_offset [OF H D w] obtain i' j' k'
    where b: "in_bounds i' j' k' s"
      "spec_offset ?H ?D (sint i') (sint j') (sint k') = 2 ^ 32"
    by blast
  have "offset i j k s = offset i' j' k' s"
    by (simp only: offset_word_of_int a(2) b(2)) simp
  moreover have "(i, j, k) \<noteq> (i', j', k')"
    using a(2) b(2) by auto
  ultimately show ?thesis using a(1) b(1) by blast
qed

lemma access_faults_beyond:
  assumes H: "0 < sint (height s)" and D: "0 < sint (depth s)"
    and big: "2 ^ 31 < extent_product s"
  shows "\<exists>i j k. in_bounds i j k s \<and> sint (offset i j k s) < 0 \<and>
           (\<exists>f. getNativeFlatArray i j k s = Inl f) \<and>
           (\<exists>f. setNativeFlatArray i j k v s = Inl f)"
proof -
  let ?H = "sint (height s)" and ?D = "sint (depth s)"
  from big have w: "(0::int) \<le> 2 ^ 31" "2 ^ 31 < extent_product s" by simp_all
  from in_bounds_of_offset [OF H D w] obtain i j k
    where b: "in_bounds i j k s" "spec_offset ?H ?D (sint i) (sint j) (sint k) = 2 ^ 31"
    by blast
  have "offset i j k s = word_of_int (2 ^ 31)"
    by (simp only: offset_word_of_int b(2))
  then have neg: "sint (offset i j k s) < 0" by simp
  then have "\<exists>f. getNativeFlatArray i j k s = Inl f"
    by (simp add: getNativeFlatArray_def subscript_read_def split: option.splits)
  moreover from neg have "\<exists>f. setNativeFlatArray i j k v s = Inl f"
    by (simp add: setNativeFlatArray_def subscript_write_def split: option.splits)
  ultimately show ?thesis using b(1) neg by blast
qed

section \<open>Addressing\<close>



section \<open>Writing and reading back\<close>

text \<open>
  Claim C2, as the code has it. In any state, when \<open>setNativeFlatArray\<close> returns, then
  \<open>getNativeFlatArray\<close> at the same coordinate in the state it leaves returns the byte
  that was written. The write does return for every coordinate within bounds when the
  buffer has been initialized, its storage is not null, and the product of the extents is
  at most \<open>2 ^ 31\<close>.
\<close>

theorem set_get_round_trip:
  "(setNativeFlatArray i j k v s = Inr ((), s') \<longrightarrow>
      getNativeFlatArray i j k s' = Inr (v, s')) \<and>
   (initialized s \<and> data s \<noteq> None \<and> extent_product s \<le> 2 ^ 31 \<and> in_bounds i j k s \<longrightarrow>
      (\<exists>t. setNativeFlatArray i j k v s = Inr ((), t) \<and>
           getNativeFlatArray i j k t = Inr (v, t)))"
proof -
  have "\<exists>t. setNativeFlatArray i j k v s = Inr ((), t) \<and>
           getNativeFlatArray i j k t = Inr (v, t)"
    if ini: "initialized s" and nn: "data s \<noteq> None"
      and fit: "extent_product s \<le> 2 ^ 31" and inb: "in_bounds i j k s"
  proof -
    from nn obtain bs where d: "data s = Some bs" by auto
    note cov = initialized_covers [OF ini d fit]
    from set_on_covered [OF d fit cov inb, of v] set_then_get show ?thesis by blast
  qed
  with set_then_get show ?thesis by blast
qed

theorem set_get_round_trip_witness:
  "initialized sample_buffer \<and> data sample_buffer \<noteq> None \<and>
   extent_product sample_buffer \<le> 2 ^ 31 \<and> in_bounds 1 2 3 sample_buffer \<and>
   setNativeFlatArray 1 2 3 7 sample_buffer =
     Inr ((), sample_buffer\<lparr>data := Some ((map of_nat [0..<24])[23 := 7])\<rparr>) \<and>
   getNativeFlatArray 1 2 3 (sample_buffer\<lparr>data := Some ((map of_nat [0..<24])[23 := 7])\<rparr>) =
     Inr (7, sample_buffer\<lparr>data := Some ((map of_nat [0..<24])[23 := 7])\<rparr>) \<and>
   (\<exists>t. setNativeFlatArray 1 2 3 7 sample_buffer = Inr ((), t) \<and>
        getNativeFlatArray 1 2 3 t = Inr (7, t))"
proof -
  let ?t = "sample_buffer\<lparr>data := Some ((map of_nat [0..<24])[23 := 7])\<rparr>"
  have o: "offset 1 2 3 sample_buffer = 23" by (simp add: offset_def sample_buffer_def)
  have w: "setNativeFlatArray 1 2 3 7 sample_buffer = Inr ((), ?t)"
    by (simp add: setNativeFlatArray_def o subscript_write_def) (simp add: sample_buffer_def)
  note t = set_get_round_trip [of 1 2 3 7 sample_buffer ?t]
  from t w have g: "getNativeFlatArray 1 2 3 ?t = Inr (7, ?t)" by blast
  from t initialized_sample sample_data sample_fit sample_in_bounds
  have e: "\<exists>t. setNativeFlatArray 1 2 3 7 sample_buffer = Inr ((), t) \<and>
        getNativeFlatArray 1 2 3 t = Inr (7, t)"
    by blast
  from initialized_sample sample_data sample_fit sample_in_bounds w g e
  show ?thesis by blast
qed

text \<open>
  An initialized buffer alone does not suffice. After a refused allocation the storage is
  null and the write at (0, 0, 0) dereferences it. After a granted allocation for the
  extents 65537, 65537, 1 the storage has 131073 bytes, and the write at the coordinate
  (2, 0, 0), which is within bounds, addresses position 131074.
\<close>

theorem set_get_round_trip_counterexample:
  "initNativeFlatArray refuse 2 2 2 initial_state = Inr ((), refused_buffer) \<and>
   initialized refused_buffer \<and> in_bounds 0 0 0 refused_buffer \<and>
   setNativeFlatArray 0 0 0 7 refused_buffer = Inl NullDereference \<and>
   (0::int) \<le> sint (65537::jint) \<and> (0::int) \<le> sint (1::jint) \<and>
   initNativeFlatArray (grant 0) 65537 65537 1 initial_state = Inr ((), wrapped_buffer) \<and>
   initialized wrapped_buffer \<and> data wrapped_buffer = Some (replicate 131073 0) \<and>
   in_bounds 2 0 0 wrapped_buffer \<and>
   setNativeFlatArray 2 0 0 7 wrapped_buffer = Inl OutOfBounds"
proof -
  have a: "in_bounds 0 0 0 refused_buffer" by (simp add: in_bounds_def refused_buffer_def)
  have b: "setNativeFlatArray 0 0 0 7 refused_buffer = Inl NullDereference"
    by (simp add: setNativeFlatArray_def subscript_write_def refused_buffer_def)
  have c: "in_bounds 2 0 0 wrapped_buffer" by (simp add: in_bounds_def wrapped_buffer_def)
  have o: "offset 2 0 0 wrapped_buffer = 131074" by (simp add: offset_def wrapped_buffer_def)
  have d: "data wrapped_buffer = Some (replicate 131073 0)" by (simp add: wrapped_buffer_def)
  have e: "setNativeFlatArray 2 0 0 7 wrapped_buffer = Inl OutOfBounds"
    by (simp add: setNativeFlatArray_def subscript_write_def o d)
  have n: "(0::int) \<le> sint (65537::jint)" "(0::int) \<le> sint (1::jint)" by simp_all
  from init_refused initialized_refused a b n init_wrapped initialized_wrapped d c e
  show ?thesis by blast
qed

section \<open>The storage length after an allocation\<close>




section \<open>Allocating again\<close>

text \<open>
  Claim C4, as the code has it. For every prior state and all \<open>w\<close>, \<open>h\<close>, \<open>d\<close>,
  \<open>initNativeFlatArray\<close> returns the state whose extents are \<open>w\<close>, \<open>h\<close>, \<open>d\<close> and whose
  storage is the allocator's answer to a request for the converted 32-bit product; nothing
  of the prior state remains. For non-negative extents whose product is below \<open>2 ^ 31\<close>
  the region can hold any contents of \<open>w * h * d\<close> bytes. After an allocation for
  (2, 2, 2) and a second one for (3, 3, 3), both granted, the buffer has 27 elements and
  the extents 3, 3, 3: the coordinate (2, 2, 2) is within bounds and both accessors
  address position 26 of the new region.
\<close>

theorem init_replaces_buffer:
  "initNativeFlatArray alloc w h d s =
     Inr ((), \<lparr>data = malloc alloc (to_size_t (w * h * d)), width = w, height = h, depth = d\<rparr>) \<and>
   (0 \<le> sint w \<and> 0 \<le> sint h \<and> 0 \<le> sint d \<and> sint w * sint h * sint d < 2 ^ 31 \<and>
    int (length cs) = sint w * sint h * sint d \<longrightarrow>
      initNativeFlatArray (\<lambda>n. Some (nth cs)) w h d s =
        Inr ((), \<lparr>data = Some cs, width = w, height = h, depth = d\<rparr>)) \<and>
   (alloc1 8 = Some fill1 \<and> alloc2 27 = Some fill2 \<and>
    initNativeFlatArray alloc1 2 2 2 s = Inr ((), s1) \<and>
    initNativeFlatArray alloc2 3 3 3 s1 = Inr ((), s2) \<longrightarrow>
      s1 = \<lparr>data = Some (map fill1 [0..<8]), width = 2, height = 2, depth = 2\<rparr> \<and>
      s2 = \<lparr>data = Some (map fill2 [0..<27]), width = 3, height = 3, depth = 3\<rparr> \<and>
      valid_buffer s2 \<and> in_bounds 2 2 2 s2 \<and>
      getNativeFlatArray 2 2 2 s2 = Inr (fill2 26, s2) \<and>
      setNativeFlatArray 2 2 2 v s2 =
        Inr ((), s2\<lparr>data := Some ((map fill2 [0..<27])[26 := v])\<rparr>))"
proof -
  have a: "initNativeFlatArray (\<lambda>n. Some (nth cs)) w h d s =
        Inr ((), \<lparr>data = Some cs, width = w, height = h, depth = d\<rparr>)"
    if n: "0 \<le> sint w" "0 \<le> sint h" "0 \<le> sint d" "sint w * sint h * sint d < 2 ^ 31"
      and len: "int (length cs) = sint w * sint h * sint d"
  proof -
    from n have pos: "0 \<le> sint w * sint h * sint d" by simp
    from sint_product [OF pos n(4)] pos to_size_t_nonneg [of "w * h * d"] len
    have "to_size_t (w * h * d) = length cs" by simp
    then have "malloc (\<lambda>n. Some (nth cs)) (to_size_t (w * h * d)) = Some cs"
      by (simp add: malloc_def map_nth)
    then show ?thesis by (simp only: init_result)
  qed
  have b: "s1 = \<lparr>data = Some (map fill1 [0..<8]), width = 2, height = 2, depth = 2\<rparr>"
    if "alloc1 8 = Some fill1" "initNativeFlatArray alloc1 2 2 2 s = Inr ((), s1)"
  proof -
    have "to_size_t (2 * 2 * 2) = 8" by (simp add: to_size_t_def)
    with that show ?thesis by (simp add: init_result malloc_def)
  qed
  have c: "s2 = \<lparr>data = Some (map fill2 [0..<27]), width = 3, height = 3, depth = 3\<rparr>"
    if "alloc2 27 = Some fill2" "initNativeFlatArray alloc2 3 3 3 s1 = Inr ((), s2)"
  proof -
    have "to_size_t (3 * 3 * 3) = 27" by (simp add: to_size_t_def)
    with that show ?thesis by (simp add: init_result malloc_def)
  qed
  have d: "valid_buffer s2 \<and> in_bounds 2 2 2 s2 \<and>
      getNativeFlatArray 2 2 2 s2 = Inr (fill2 26, s2) \<and>
      setNativeFlatArray 2 2 2 v s2 =
        Inr ((), s2\<lparr>data := Some ((map fill2 [0..<27])[26 := v])\<rparr>)"
    if s2: "s2 = \<lparr>data = Some (map fill2 [0..<27]), width = 3, height = 3, depth = 3\<rparr>"
  proof -
    have o: "offset 2 2 2 s2 = 26" by (simp add: s2 offset_def)
    have l: "length (map fill2 [0..<27]) = 27" by simp
    have e: "map fill2 [0..<27] ! 26 = fill2 26" by (simp only: nth_map length_upt nth_upt) simp
    have i: "valid_buffer s2" by (simp add: s2 valid_buffer_def extent_product_def)
    have ib: "in_bounds 2 2 2 s2" by (simp add: s2 in_bounds_def)
    have ds: "data s2 = Some (map fill2 [0..<27])" by (simp add: s2)
    have g: "getNativeFlatArray 2 2 2 s2 = Inr (fill2 26, s2)"
      by (simp add: getNativeFlatArray_def subscript_read_def o ds l e del: upt_rec_numeral map_upt_Suc)
    have p: "setNativeFlatArray 2 2 2 v s2 =
        Inr ((), s2\<lparr>data := Some ((map fill2 [0..<27])[26 := v])\<rparr>)"
      by (simp add: setNativeFlatArray_def subscript_write_def o ds l del: upt_rec_numeral)
    from i ib g p show ?thesis by simp
  qed
  from init_result [of alloc w h d s] a b c d show ?thesis by blast
qed

theorem init_replaces_buffer_witness:
  "(0::int) \<le> sint (2::jint) \<and> (0::int) \<le> sint (3::jint) \<and> (0::int) \<le> sint (4::jint) \<and>
   sint (2::jint) * sint (3::jint) * sint (4::jint) < 2 ^ 31 \<and>
   int (length (map (of_nat :: nat \<Rightarrow> jbyte) [0..<24])) =
     sint (2::jint) * sint (3::jint) * sint (4::jint) \<and>
   initNativeFlatArray (\<lambda>n. Some (nth (map of_nat [0..<24]))) 2 3 4 initial_state =
     Inr ((), \<lparr>data = Some (map of_nat [0..<24]), width = 2, height = 3, depth = 4\<rparr>) \<and>
   grant 0 8 = Some (\<lambda>p. 0) \<and> grant_counting 27 = Some of_nat \<and>
   initNativeFlatArray (grant 0) 2 2 2 initial_state =
     Inr ((), \<lparr>data = Some (replicate 8 0), width = 2, height = 2, depth = 2\<rparr>) \<and>
   initNativeFlatArray grant_counting 3 3 3
       \<lparr>data = Some (replicate 8 0), width = 2, height = 2, depth = 2\<rparr> =
     Inr ((), \<lparr>data = Some (map of_nat [0..<27]), width = 3, height = 3, depth = 3\<rparr>) \<and>
   getNativeFlatArray 2 2 2 \<lparr>data = Some (map of_nat [0..<27]), width = 3, height = 3, depth = 3\<rparr> =
     Inr (26, \<lparr>data = Some (map of_nat [0..<27]), width = 3, height = 3, depth = 3\<rparr>)"
proof -
  let ?s1 = "\<lparr>data = Some (replicate 8 (0::jbyte)), width = 2, height = 2, depth = 2\<rparr>"
  let ?s2 = "\<lparr>data = Some (map (of_nat :: nat \<Rightarrow> jbyte) [0..<27]), width = 3, height = 3, depth = 3\<rparr>"
  have n: "(0::int) \<le> sint (2::jint)" "(0::int) \<le> sint (3::jint)" "(0::int) \<le> sint (4::jint)"
    "sint (2::jint) * sint (3::jint) * sint (4::jint) < 2 ^ 31"
    "int (length (map (of_nat :: nat \<Rightarrow> jbyte) [0..<24])) =
       sint (2::jint) * sint (3::jint) * sint (4::jint)"
    by simp_all
  have g: "grant 0 8 = Some (\<lambda>p. 0)" "grant_counting 27 = Some of_nat"
    by (simp_all add: grant_def grant_counting_def)
  have s8: "to_size_t (2 * 2 * 2) = 8" and s27: "to_size_t (3 * 3 * 3) = 27"
    by (simp_all add: to_size_t_def)
  have r1: "initNativeFlatArray (grant 0) 2 2 2 initial_state = Inr ((), ?s1)"
    by (simp only: init_result malloc_grant s8)
  have r2: "initNativeFlatArray grant_counting 3 3 3 ?s1 = Inr ((), ?s2)"
    by (simp only: init_result malloc_grant_counting s27)
  have e: "(of_nat (26::nat) :: jbyte) = 26" by simp
  from init_replaces_buffer [of grant_counting 2 3 4 initial_state "map of_nat [0..<24]"
      "grant 0" "\<lambda>p. 0" grant_counting of_nat ?s1 ?s2 7] n g r1 r2
  have "initNativeFlatArray (\<lambda>n. Some (nth (map of_nat [0..<24]))) 2 3 4 initial_state =
     Inr ((), \<lparr>data = Some (map of_nat [0..<24]), width = 2, height = 3, depth = 4\<rparr>) \<and>
     getNativeFlatArray 2 2 2 ?s2 = Inr (of_nat 26, ?s2)"
    by blast
  with n g r1 r2 e show ?thesis by (simp only: simp_thms)
qed

text \<open>
  As first stated, for all non-negative extents, the property fails: for the extents
  65536, 65536, 1 the product \<open>2 ^ 32\<close> wraps to 0 and the granted region is empty; and
  when the second allocation is refused, the extents are 3, 3, 3 over a null storage, so
  that a read at (2, 2, 2) dereferences the null pointer.
\<close>

theorem init_replaces_buffer_counterexample:
  "(0::int) \<le> sint (65536::jint) \<and> (0::int) \<le> sint (1::jint) \<and>
   sint (65536::jint) * sint (65536::jint) * sint (1::jint) = 4294967296 \<and>
   initNativeFlatArray (grant 0) 65536 65536 1 initial_state =
     Inr ((), \<lparr>data = Some [], width = 65536, height = 65536, depth = 1\<rparr>) \<and>
   initNativeFlatArray refuse 3 3 3
       \<lparr>data = Some (replicate 8 0), width = 2, height = 2, depth = 2\<rparr> =
     Inr ((), \<lparr>data = None, width = 3, height = 3, depth = 3\<rparr>) \<and>
   getNativeFlatArray 2 2 2 \<lparr>data = None, width = 3, height = 3, depth = 3\<rparr> =
     Inl NullDereference"
proof -
  have z: "to_size_t (65536 * 65536 * 1) = 0" by (simp add: to_size_t_def)
  have a: "initNativeFlatArray (grant 0) 65536 65536 1 initial_state =
     Inr ((), \<lparr>data = Some [], width = 65536, height = 65536, depth = 1\<rparr>)"
    by (simp only: init_result malloc_grant z replicate_0)
  have b: "initNativeFlatArray refuse 3 3 3
       \<lparr>data = Some (replicate 8 0), width = 2, height = 2, depth = 2\<rparr> =
     Inr ((), \<lparr>data = None, width = 3, height = 3, depth = 3\<rparr>)"
    by (simp only: init_result malloc_refuse)
  have c: "getNativeFlatArray 2 2 2 \<lparr>data = None, width = 3, height = 3, depth = 3\<rparr> =
     Inl NullDereference"
    by (simp add: getNativeFlatArray_def subscript_read_def)
  from a b c show ?thesis by simp
qed

section \<open>Distinct coordinates, distinct offsets\<close>

text \<open>
  Claim C5, as the code has it. Over unbounded integers the formula
  \<open>k + j * depth + i * depth * height\<close> sends distinct coordinates within bounds to distinct
  offsets, whatever the extents. The 32-bit \<open>offset\<close> that the accessors compute does so
  when the product of the extents is at most \<open>2 ^ 32\<close>.
\<close>

theorem offset_injective:
  "(0 \<le> y \<and> y < H \<and> 0 \<le> z \<and> z < D \<and> 0 \<le> y' \<and> y' < H \<and> 0 \<le> z' \<and> z' < D \<and>
    (x, y, z) \<noteq> (x', y', z') \<longrightarrow>
      spec_offset H D x y z \<noteq> spec_offset H D x' y' z') \<and>
   (extent_product s \<le> 2 ^ 32 \<and> in_bounds i j k s \<and> in_bounds i' j' k' s \<and>
    (i, j, k) \<noteq> (i', j', k') \<longrightarrow>
      offset i j k s \<noteq> offset i' j' k' s \<and>
      sint (offset i j k s) \<noteq> sint (offset i' j' k' s))"
proof -
  have a: "spec_offset H D x y z \<noteq> spec_offset H D x' y' z'"
    if "0 \<le> y" "y < H" "0 \<le> z" "z < D" "0 \<le> y'" "y' < H" "0 \<le> z'" "z' < D"
      and "(x, y, z) \<noteq> (x', y', z')"
    using spec_offset_inj [of y H z D y' z' x x'] that by auto
  have b: "offset i j k s \<noteq> offset i' j' k' s"
    if "extent_product s \<le> 2 ^ 32" "in_bounds i j k s" "in_bounds i' j' k' s"
      and "(i, j, k) \<noteq> (i', j', k')"
    using offset_inj_on_bounds [OF that(1-3)] that(4) by auto
  have c: "sint (offset i j k s) \<noteq> sint (offset i' j' k' s)"
    if "offset i j k s \<noteq> offset i' j' k' s"
    using that by (auto dest: signed_word_eqI)
  from a b c show ?thesis by blast
qed

theorem offset_injective_witness:
  "(0::int) \<le> 2 \<and> (2::int) < 3 \<and> (0::int) \<le> 3 \<and> (3::int) < 4 \<and>
   (0::int) \<le> 0 \<and> (0::int) < 3 \<and> (0::int) < 4 \<and>
   (1::int, 2::int, 3::int) \<noteq> (0, 0, 0) \<and>
   spec_offset 3 4 1 2 3 \<noteq> spec_offset 3 4 0 0 0 \<and>
   extent_product sample_buffer \<le> 2 ^ 32 \<and>
   in_bounds 1 2 3 sample_buffer \<and> in_bounds 0 0 0 sample_buffer \<and>
   (1::jint, 2::jint, 3::jint) \<noteq> (0, 0, 0) \<and>
   offset 1 2 3 sample_buffer \<noteq> offset 0 0 0 sample_buffer"
proof -
  have a: "extent_product sample_buffer \<le> 2 ^ 32"
    by (simp add: extent_product_def sample_buffer_def)
  have b: "in_bounds 1 2 3 sample_buffer" "in_bounds 0 0 0 sample_buffer"
    by (simp_all add: in_bounds_def sample_buffer_def)
  have c: "(1::jint, 2::jint, 3::jint) \<noteq> (0, 0, 0)" by simp
  have n: "(0::int) \<le> 2" "(2::int) < 3" "(0::int) \<le> 3" "(3::int) < 4"
    "(0::int) \<le> 0" "(0::int) < 3" "(0::int) < 4" "(1::int, 2::int, 3::int) \<noteq> (0, 0, 0)"
    by simp_all
  from offset_injective [where s = sample_buffer and i = 1 and j = 2 and k = 3
      and i' = 0 and j' = 0 and k' = 0 and H = 3 and D = 4 and x = 1 and y = 2 and z = 3
      and x' = 0 and y' = 0 and z' = 0] a b c n
  have "spec_offset 3 4 1 2 3 \<noteq> spec_offset 3 4 0 0 0 \<and>
        offset 1 2 3 sample_buffer \<noteq> offset 0 0 0 sample_buffer"
    by blast
  with a b c n show ?thesis by blast
qed

text \<open>
  Beyond that product the computed offsets collide. With the extents 2, 65536, 65536 the
  coordinates (0, 0, 0) and (1, 0, 0) are both within bounds and both have offset 0; with
  the extents 65537, 65537, 1 the coordinates (65536, 0, 0) and (0, 65536, 0) both have
  offset 65536.
\<close>

theorem offset_injective_counterexample:
  "initNativeFlatArray (grant 0) 2 65536 65536 initial_state =
     Inr ((), \<lparr>data = Some [], width = 2, height = 65536, depth = 65536\<rparr>) \<and>
   in_bounds 0 0 0 \<lparr>data = Some [], width = 2, height = 65536, depth = 65536\<rparr> \<and>
   in_bounds 1 0 0 \<lparr>data = Some [], width = 2, height = 65536, depth = 65536\<rparr> \<and>
   (0::jint, 0::jint, 0::jint) \<noteq> (1, 0, 0) \<and>
   offset 0 0 0 \<lparr>data = Some [], width = 2, height = 65536, depth = 65536\<rparr> = 0 \<and>
   offset 1 0 0 \<lparr>data = Some [], width = 2, height = 65536, depth = 65536\<rparr> = 0 \<and>
   initNativeFlatArray (grant 0) 65537 65537 1 initial_state = Inr ((), wrapped_buffer) \<and>
   extent_product wrapped_buffer = 2 ^ 32 + 131073 \<and>
   in_bounds 65536 0 0 wrapped_buffer \<and> in_bounds 0 65536 0 wrapped_buffer \<and>
   (65536::jint, 0::jint, 0::jint) \<noteq> (0, 65536, 0) \<and>
   offset 65536 0 0 wrapped_buffer = 65536 \<and>
   offset 0 65536 0 wrapped_buffer = 65536"
proof -
  have z: "to_size_t (2 * 65536 * 65536) = 0" by (simp add: to_size_t_def)
  have a: "initNativeFlatArray (grant 0) 2 65536 65536 initial_state =
     Inr ((), \<lparr>data = Some [], width = 2, height = 65536, depth = 65536\<rparr>)"
    by (simp only: init_result malloc_grant z replicate_0)
  have b: "extent_product wrapped_buffer = 2 ^ 32 + 131073"
    "in_bounds 65536 0 0 wrapped_buffer" "in_bounds 0 65536 0 wrapped_buffer"
    "offset 65536 0 0 wrapped_buffer = 65536" "offset 0 65536 0 wrapped_buffer = 65536"
    by (simp_all add: extent_product_def in_bounds_def offset_def wrapped_buffer_def)
  show ?thesis by (simp add: a b init_wrapped) (simp add: in_bounds_def offset_def)
qed

section \<open>Accesses within bounds stay inside the storage\<close>

text \<open>
  Claim C6, as the code has it. When the buffer has been initialized, its storage is not
  null and the product of the extents is at most \<open>2 ^ 31\<close>, then for every coordinate
  within bounds the offset that the accessors compute is non-negative, below the product
  of the extents, equal to the value of the specification's formula, and a position of
  the storage: \<open>getNativeFlatArray\<close> and \<open>setNativeFlatArray\<close> return, and neither
  reaches the null or the out-of-range branch. For a product below \<open>2 ^ 31\<close> the offset is
  also below the 32-bit product.
\<close>

theorem offset_within_storage:
  assumes "initialized s" and "data s \<noteq> None" and "extent_product s \<le> 2 ^ 31"
    and "in_bounds i j k s"
  shows "0 \<le> sint (offset i j k s) \<and>
         sint (offset i j k s) < sint (width s) * sint (height s) * sint (depth s) \<and>
         (extent_product s < 2 ^ 31 \<longrightarrow>
            sint (offset i j k s) < sint (width s * height s * depth s)) \<and>
         sint (offset i j k s) =
           spec_offset (sint (height s)) (sint (depth s)) (sint i) (sint j) (sint k) \<and>
         (\<exists>bs. data s = Some bs \<and> nat (sint (offset i j k s)) < length bs \<and>
               getNativeFlatArray i j k s = Inr (bs ! nat (sint (offset i j k s)), s) \<and>
               setNativeFlatArray i j k v s =
                 Inr ((), s\<lparr>data := Some (bs[nat (sint (offset i j k s)) := v])\<rparr>)) \<and>
         (\<forall>f. getNativeFlatArray i j k s \<noteq> Inl f) \<and>
         (\<forall>f. setNativeFlatArray i j k v s \<noteq> Inl f)"
proof -
  note fit = assms(3)
  note ex = offset_exact [OF fit assms(4)]
  from assms(2) obtain bs where d: "data s = Some bs" by auto
  note cov = initialized_covers [OF assms(1) d fit]
  from ex(1,2) have nn: "0 \<le> extent_product s" using ex(3) by simp
  have sp: "sint (width s * height s * depth s) = extent_product s"
    if "extent_product s < 2 ^ 31"
    using sint_product [of "width s" "height s" "depth s"] nn that
    by (simp add: extent_product_def)
  from ex cov have n: "nat (sint (offset i j k s)) < length bs" by simp
  have g: "getNativeFlatArray i j k s = Inr (bs ! nat (sint (offset i j k s)), s)"
    using ex cov d by (simp add: getNativeFlatArray_def subscript_read_def)
  have p: "setNativeFlatArray i j k v s =
      Inr ((), s\<lparr>data := Some (bs[nat (sint (offset i j k s)) := v])\<rparr>)"
    using ex cov d by (simp add: setNativeFlatArray_def subscript_write_def)
  from ex sp d n g p show ?thesis by (simp add: extent_product_def)
qed

theorem offset_within_storage_witness:
  "initialized sample_buffer \<and> data sample_buffer \<noteq> None \<and>
   extent_product sample_buffer \<le> 2 ^ 31 \<and> in_bounds 1 2 3 sample_buffer \<and>
   extent_product sample_buffer < 2 ^ 31 \<and>
   0 \<le> sint (offset 1 2 3 sample_buffer) \<and>
   sint (offset 1 2 3 sample_buffer) <
     sint (width sample_buffer * height sample_buffer * depth sample_buffer) \<and>
   (\<forall>f. getNativeFlatArray 1 2 3 sample_buffer \<noteq> Inl f) \<and>
   (\<forall>f. setNativeFlatArray 1 2 3 7 sample_buffer \<noteq> Inl f)"
proof -
  have lt: "extent_product sample_buffer < 2 ^ 31"
    by (simp add: extent_product_def sample_buffer_def)
  from offset_within_storage [OF initialized_sample sample_data sample_fit sample_in_bounds,
      of 7] lt initialized_sample sample_data sample_fit sample_in_bounds
  show ?thesis by blast
qed

text \<open>
  In the buffer that a granted allocation for 65537, 65537, 1 leaves, the 32-bit product
  and the storage length are 131073, while the coordinate (3, 0, 0) within bounds has the
  offset 196611: both accessors take the out-of-range branch. In the buffer that a refused
  allocation leaves, a read within bounds takes the null branch.
\<close>

theorem offset_within_storage_counterexample:
  "initNativeFlatArray (grant 0) 65537 65537 1 initial_state = Inr ((), wrapped_buffer) \<and>
   initialized wrapped_buffer \<and>
   (0::int) \<le> sint (65537::jint) \<and> (0::int) \<le> sint (1::jint) \<and>
   data wrapped_buffer = Some (replicate 131073 0) \<and>
   length (replicate 131073 (0::jbyte)) = 131073 \<and>
   sint (width wrapped_buffer * height wrapped_buffer * depth wrapped_buffer) = 131073 \<and>
   in_bounds 3 0 0 wrapped_buffer \<and>
   sint (offset 3 0 0 wrapped_buffer) = 196611 \<and>
   getNativeFlatArray 3 0 0 wrapped_buffer = Inl OutOfBounds \<and>
   setNativeFlatArray 3 0 0 7 wrapped_buffer = Inl OutOfBounds \<and>
   initNativeFlatArray refuse 2 2 2 initial_state = Inr ((), refused_buffer) \<and>
   initialized refused_buffer \<and> in_bounds 1 1 1 refused_buffer \<and>
   getNativeFlatArray 1 1 1 refused_buffer = Inl NullDereference"
proof -
  have d: "data wrapped_buffer = Some (replicate 131073 0)" by (simp add: wrapped_buffer_def)
  have l: "length (replicate 131073 (0::jbyte)) = 131073" by (simp only: length_replicate)
  have p: "sint (width wrapped_buffer * height wrapped_buffer * depth wrapped_buffer) = 131073"
    by (simp add: wrapped_buffer_def)
  have c: "in_bounds 3 0 0 wrapped_buffer" by (simp add: in_bounds_def wrapped_buffer_def)
  have o: "offset 3 0 0 wrapped_buffer = 196611" by (simp add: offset_def wrapped_buffer_def)
  then have so: "sint (offset 3 0 0 wrapped_buffer) = 196611" by simp
  have g: "getNativeFlatArray 3 0 0 wrapped_buffer = Inl OutOfBounds"
    by (simp add: getNativeFlatArray_def subscript_read_def o d)
  have w: "setNativeFlatArray 3 0 0 7 wrapped_buffer = Inl OutOfBounds"
    by (simp add: setNativeFlatArray_def subscript_write_def o d)
  have a: "in_bounds 1 1 1 refused_buffer" by (simp add: in_bounds_def refused_buffer_def)
  have b: "getNativeFlatArray 1 1 1 refused_buffer = Inl NullDereference"
    by (simp add: getNativeFlatArray_def subscript_read_def refused_buffer_def)
  have n: "(0::int) \<le> sint (65537::jint)" "(0::int) \<le> sint (1::jint)" by simp_all
  from init_wrapped initialized_wrapped n d l p c so g w init_refused initialized_refused a b
  show ?thesis by blast
qed

section \<open>No validation, no error value\<close>

text \<open>
  Claim C7. \<open>initNativeFlatArray\<close> returns for every allocator, every triple of extents
  (negative ones included) and every prior state, and the state it returns carries the
  three extents as given. The accessors do not compare the coordinate with the extents
  either: whenever the addressed byte exists they return, and what they deliver is that
  byte or the updated storage, never an error value.
\<close>

theorem init_never_fails:
  "(\<exists>s'. initNativeFlatArray alloc w h d s = Inr ((), s') \<and>
         width s' = w \<and> height s' = h \<and> depth s' = d) \<and>
   (\<forall>f. initNativeFlatArray alloc w h d s \<noteq> Inl f) \<and>
   (data s = Some bs \<and> 0 \<le> sint (offset i j k s) \<and> sint (offset i j k s) < int (length bs) \<longrightarrow>
      getNativeFlatArray i j k s = Inr (bs ! nat (sint (offset i j k s)), s) \<and>
      setNativeFlatArray i j k v s =
        Inr ((), s\<lparr>data := Some (bs[nat (sint (offset i j k s)) := v])\<rparr>))"
  by (simp add: init_result getNativeFlatArray_def setNativeFlatArray_def
      subscript_read_def subscript_write_def)

theorem init_never_fails_witness:
  "(\<exists>s'. initNativeFlatArray refuse (- 1) (- 5) 7 sample_buffer = Inr ((), s') \<and>
         width s' = - 1 \<and> height s' = - 5 \<and> depth s' = 7) \<and>
   sint (- 1 :: jint) < 0 \<and>
   data sample_buffer = Some (map of_nat [0..<24]) \<and>
   \<not> in_bounds 0 0 23 sample_buffer \<and>
   0 \<le> sint (offset 0 0 23 sample_buffer) \<and>
   sint (offset 0 0 23 sample_buffer) < int (length (map (of_nat :: nat \<Rightarrow> jbyte) [0..<24])) \<and>
   getNativeFlatArray 0 0 23 sample_buffer = Inr (23, sample_buffer)"
proof -
  have d: "data sample_buffer = Some (map of_nat [0..<24])" by (simp add: sample_buffer_def)
  have o: "offset 0 0 23 sample_buffer = 23" by (simp add: offset_def)
  have r: "0 \<le> sint (offset 0 0 23 sample_buffer)"
    "sint (offset 0 0 23 sample_buffer) < int (length (map (of_nat :: nat \<Rightarrow> jbyte) [0..<24]))"
    by (simp_all add: o)
  have nb: "\<not> in_bounds 0 0 23 sample_buffer" by (simp add: in_bounds_def sample_buffer_def)
  have e: "map (of_nat :: nat \<Rightarrow> jbyte) [0..<24] ! nat (sint (offset 0 0 23 sample_buffer)) = 23"
    by (simp add: o)
  note t = init_never_fails [of refuse "- 1" "- 5" 7 sample_buffer "map of_nat [0..<24]" 0 0 23 0]
  from t have a: "\<exists>s'. initNativeFlatArray refuse (- 1) (- 5) 7 sample_buffer = Inr ((), s') \<and>
         width s' = - 1 \<and> height s' = - 5 \<and> depth s' = 7"
    by blast
  from t d r have "getNativeFlatArray 0 0 23 sample_buffer =
      Inr (map (of_nat :: nat \<Rightarrow> jbyte) [0..<24] ! nat (sint (offset 0 0 23 sample_buffer)),
           sample_buffer)"
    by blast
  then have g: "getNativeFlatArray 0 0 23 sample_buffer = Inr (23, sample_buffer)"
    by (simp only: e)
  have m: "sint (- 1 :: jint) < 0" by simp
  from a m d nb r g show ?thesis by blast
qed

section \<open>Reading changes nothing\<close>

text \<open>
  Claim C8. A call of \<open>getNativeFlatArray\<close> either leaves defined behaviour or returns a
  byte together with the very state it was called in: extents and storage are unchanged.
\<close>

theorem get_leaves_state_unchanged:
  "((\<exists>f. getNativeFlatArray i j k s = Inl f) \<or> (\<exists>b. getNativeFlatArray i j k s = Inr (b, s))) \<and>
   (getNativeFlatArray i j k s = Inr (b, s') \<longrightarrow>
      s' = s \<and> data s' = data s \<and>
      width s' = width s \<and> height s' = height s \<and> depth s' = depth s)"
  by (auto simp: getNativeFlatArray_def subscript_read_def split: option.splits)

theorem get_leaves_state_unchanged_witness:
  "\<exists>b s'. getNativeFlatArray 1 2 3 sample_buffer = Inr (b, s') \<and> b = 23 \<and>
      s' = sample_buffer \<and> data s' = data sample_buffer \<and> width s' = width sample_buffer \<and>
      height s' = height sample_buffer \<and> depth s' = depth sample_buffer"
proof -
  have o: "offset 1 2 3 sample_buffer = 23" by (simp add: offset_def sample_buffer_def)
  have "getNativeFlatArray 1 2 3 sample_buffer = Inr (23, sample_buffer)"
    by (simp add: getNativeFlatArray_def o subscript_read_def) (simp add: sample_buffer_def)
  with get_leaves_state_unchanged [of 1 2 3 sample_buffer 23 sample_buffer]
  show ?thesis by blast
qed

section \<open>Writing changes one cell\<close>

text \<open>
  Claim C9, as the code has it. In any state, when \<open>setNativeFlatArray\<close> returns, the
  state it leaves differs from the one before in the single storage position
  \<open>k + j * depth + i * depth * height\<close> (in 32-bit arithmetic): extents and every other
  position are unchanged. When the buffer has been initialized, its storage is not null
  and the product of the extents is at most \<open>2 ^ 31\<close>, the write returns for every
  coordinate within bounds, the position is the value of the formula in unbounded
  arithmetic, and a read at any other coordinate within bounds returns the same byte after
  the write as before it.
\<close>

theorem set_single_cell:
  "(setNativeFlatArray i j k v s = Inr ((), s') \<longrightarrow>
      (\<exists>bs. data s = Some bs \<and> nat (sint (offset i j k s)) < length bs \<and>
            s' = s\<lparr>data := Some (bs[nat (sint (offset i j k s)) := v])\<rparr> \<and>
            width s' = width s \<and> height s' = height s \<and> depth s' = depth s \<and>
            (\<forall>m. m \<noteq> nat (sint (offset i j k s)) \<longrightarrow>
                 bs[nat (sint (offset i j k s)) := v] ! m = bs ! m))) \<and>
   (initialized s \<and> data s \<noteq> None \<and> extent_product s \<le> 2 ^ 31 \<and> in_bounds i j k s \<longrightarrow>
      (\<exists>bs n t. data s = Some bs \<and>
         n = nat (spec_offset (sint (height s)) (sint (depth s)) (sint i) (sint j) (sint k)) \<and>
         n < length bs \<and> int n = sint (offset i j k s) \<and>
         setNativeFlatArray i j k v s = Inr ((), t) \<and>
         t = s\<lparr>data := Some (bs[n := v])\<rparr> \<and>
         width t = width s \<and> height t = height s \<and> depth t = depth s \<and>
         length (bs[n := v]) = length bs \<and> bs[n := v] ! n = v \<and>
         (\<forall>m. m \<noteq> n \<longrightarrow> bs[n := v] ! m = bs ! m) \<and>
         (\<forall>i' j' k'. in_bounds i' j' k' s \<and> (i', j', k') \<noteq> (i, j, k) \<longrightarrow>
            (\<exists>b. getNativeFlatArray i' j' k' s = Inr (b, s) \<and>
                 getNativeFlatArray i' j' k' t = Inr (b, t)))))"
proof -
  have general: "\<exists>bs. data s = Some bs \<and> nat (sint (offset i j k s)) < length bs \<and>
            s' = s\<lparr>data := Some (bs[nat (sint (offset i j k s)) := v])\<rparr> \<and>
            width s' = width s \<and> height s' = height s \<and> depth s' = depth s \<and>
            (\<forall>m. m \<noteq> nat (sint (offset i j k s)) \<longrightarrow>
                 bs[nat (sint (offset i j k s)) := v] ! m = bs ! m)"
    if "setNativeFlatArray i j k v s = Inr ((), s')"
    using set_result [OF that] by auto
  have valid: "\<exists>bs n t. data s = Some bs \<and>
         n = nat (spec_offset (sint (height s)) (sint (depth s)) (sint i) (sint j) (sint k)) \<and>
         n < length bs \<and> int n = sint (offset i j k s) \<and>
         setNativeFlatArray i j k v s = Inr ((), t) \<and>
         t = s\<lparr>data := Some (bs[n := v])\<rparr> \<and>
         width t = width s \<and> height t = height s \<and> depth t = depth s \<and>
         length (bs[n := v]) = length bs \<and> bs[n := v] ! n = v \<and>
         (\<forall>m. m \<noteq> n \<longrightarrow> bs[n := v] ! m = bs ! m) \<and>
         (\<forall>i' j' k'. in_bounds i' j' k' s \<and> (i', j', k') \<noteq> (i, j, k) \<longrightarrow>
            (\<exists>b. getNativeFlatArray i' j' k' s = Inr (b, s) \<and>
                 getNativeFlatArray i' j' k' t = Inr (b, t)))"
    if ini: "initialized s" and nn: "data s \<noteq> None"
      and fit: "extent_product s \<le> 2 ^ 31" and inb: "in_bounds i j k s"
  proof -
    from nn obtain bs where d: "data s = Some bs" by auto
    note cov = initialized_covers [OF ini d fit]
    from fit have fit32: "extent_product s \<le> 2 ^ 32" by simp
    let ?H = "sint (height s)" and ?D = "sint (depth s)"
    let ?n = "nat (spec_offset ?H ?D (sint i) (sint j) (sint k))"
    let ?t = "s\<lparr>data := Some (bs[?n := v])\<rparr>"
    have n: "?n < length bs" by (rule index_on_covered [OF fit cov inb])
    have no: "int ?n = sint (offset i j k s)"
      using offset_exact(1,2) [OF fit inb] by simp
    have w: "setNativeFlatArray i j k v s = Inr ((), ?t)"
      by (rule set_on_covered [OF d fit cov inb])
    have dt: "data ?t = Some (bs[?n := v])" by simp
    have fit': "extent_product ?t \<le> 2 ^ 31" using fit by (simp add: extent_product_def)
    have cov': "extent_product ?t \<le> int (length (bs[?n := v]))"
      using cov by (simp add: extent_product_def)
    have other: "\<exists>b. getNativeFlatArray i' j' k' s = Inr (b, s) \<and>
                     getNativeFlatArray i' j' k' ?t = Inr (b, ?t)"
      if inb': "in_bounds i' j' k' s" and ne: "(i', j', k') \<noteq> (i, j, k)" for i' j' k'
    proof -
      let ?m = "nat (spec_offset ?H ?D (sint i') (sint j') (sint k'))"
      have "offset i' j' k' s \<noteq> offset i j k s"
        using offset_inj_on_bounds [OF fit32 inb' inb] ne by auto
      then have "sint (offset i' j' k' s) \<noteq> sint (offset i j k s)"
        by (auto dest: signed_word_eqI)
      with offset_exact(1,2) [OF fit inb'] offset_exact(1,2) [OF fit inb]
      have mn: "?m \<noteq> ?n" by simp
      have g: "getNativeFlatArray i' j' k' s = Inr (bs ! ?m, s)"
        by (rule get_on_covered [OF d fit cov inb'])
      have inb'': "in_bounds i' j' k' ?t" using inb' by (simp add: in_bounds_def)
      have "getNativeFlatArray i' j' k' ?t = Inr ((bs[?n := v]) ! ?m, ?t)"
        using get_on_covered [OF dt fit' cov' inb''] by simp
      with mn have "getNativeFlatArray i' j' k' ?t = Inr (bs ! ?m, ?t)" by simp
      with g show ?thesis by blast
    qed
    from d n no w other show ?thesis by auto
  qed
  from general valid show ?thesis by blast
qed

theorem set_single_cell_witness:
  "initialized sample_buffer \<and> data sample_buffer \<noteq> None \<and>
   extent_product sample_buffer \<le> 2 ^ 31 \<and> in_bounds 1 2 3 sample_buffer \<and>
   in_bounds 0 1 2 sample_buffer \<and> (0::jint, 1::jint, 2::jint) \<noteq> (1, 2, 3) \<and>
   (\<exists>t. setNativeFlatArray 1 2 3 7 sample_buffer = Inr ((), t) \<and>
      t = sample_buffer\<lparr>data := Some ((map of_nat [0..<24])[23 := 7])\<rparr> \<and>
      (22::nat) \<noteq> 23 \<and>
      (map of_nat [0..<24])[23 := 7] ! 22 = (map of_nat [0..<24] ! 22 :: jbyte) \<and>
      (\<exists>b. getNativeFlatArray 0 1 2 sample_buffer = Inr (b, sample_buffer) \<and>
           getNativeFlatArray 0 1 2 t = Inr (b, t)))"
proof -
  have b: "in_bounds 0 1 2 sample_buffer" by (simp add: in_bounds_def sample_buffer_def)
  have c: "(0::jint, 1::jint, 2::jint) \<noteq> (1, 2, 3)" by simp
  have d: "data sample_buffer = Some (map of_nat [0..<24])" by (simp add: sample_buffer_def)
  have e: "nat (spec_offset (sint (height sample_buffer)) (sint (depth sample_buffer))
          (sint (1 :: jint)) (sint (2 :: jint)) (sint (3 :: jint))) = 23"
    by (simp add: spec_offset_def sample_buffer_def)
  have f: "(22::nat) \<noteq> 23" by simp
  have hyp: "initialized sample_buffer \<and> data sample_buffer \<noteq> None \<and>
      extent_product sample_buffer \<le> 2 ^ 31 \<and> in_bounds 1 2 3 sample_buffer"
    using initialized_sample sample_data sample_fit sample_in_bounds by (intro conjI)
  from mp [OF set_single_cell [of 1 2 3 7 sample_buffer, THEN conjunct2] hyp]
  obtain bs n t where
    r: "data sample_buffer = Some bs"
      "n = nat (spec_offset (sint (height sample_buffer)) (sint (depth sample_buffer))
          (sint (1 :: jint)) (sint (2 :: jint)) (sint (3 :: jint)))"
      "setNativeFlatArray 1 2 3 7 sample_buffer = Inr ((), t)"
      "t = sample_buffer\<lparr>data := Some (bs[n := 7])\<rparr>"
      "\<forall>m. m \<noteq> n \<longrightarrow> bs[n := 7] ! m = bs ! m"
      "\<forall>i' j' k'. in_bounds i' j' k' sample_buffer \<and> (i', j', k') \<noteq> (1, 2, 3) \<longrightarrow>
         (\<exists>b. getNativeFlatArray i' j' k' sample_buffer = Inr (b, sample_buffer) \<and>
              getNativeFlatArray i' j' k' t = Inr (b, t))"
    by blast
  from r(1) d have bs: "bs = map of_nat [0..<24]" by simp
  from r(2) e have n: "n = 23" by simp
  from r(5) f have g: "(map of_nat [0..<24])[23 := 7] ! 22 = (map of_nat [0..<24] ! 22 :: jbyte)"
    unfolding bs n by blast
  from r(6) b c have h: "\<exists>b. getNativeFlatArray 0 1 2 sample_buffer = Inr (b, sample_buffer) \<and>
           getNativeFlatArray 0 1 2 t = Inr (b, t)"
    by blast
  from r(3) r(4) g h f show ?thesis
    unfolding bs n
    using initialized_sample sample_data sample_fit sample_in_bounds b c by blast
qed

text \<open>
  In the buffer that a granted allocation for 65537, 65537, 1 leaves, the distinct
  coordinates (65536, 0, 0) and (0, 65536, 0) are within bounds and share position 65536:
  a write of 7 at the first changes what a read at the second returns, from 0 to 7. In
  the buffer that a refused allocation leaves, a write within bounds dereferences the null
  pointer.
\<close>

theorem set_single_cell_counterexample:
  "initNativeFlatArray (grant 0) 65537 65537 1 initial_state = Inr ((), wrapped_buffer) \<and>
   initialized wrapped_buffer \<and>
   (0::int) \<le> sint (65537::jint) \<and> (0::int) \<le> sint (1::jint) \<and>
   in_bounds 65536 0 0 wrapped_buffer \<and> in_bounds 0 65536 0 wrapped_buffer \<and>
   (0::jint, 65536::jint, 0::jint) \<noteq> (65536, 0, 0) \<and>
   getNativeFlatArray 0 65536 0 wrapped_buffer = Inr (0, wrapped_buffer) \<and>
   setNativeFlatArray 65536 0 0 7 wrapped_buffer =
     Inr ((), wrapped_buffer\<lparr>data := Some ((replicate 131073 0)[65536 := 7])\<rparr>) \<and>
   getNativeFlatArray 0 65536 0
       (wrapped_buffer\<lparr>data := Some ((replicate 131073 0)[65536 := 7])\<rparr>) =
     Inr (7, wrapped_buffer\<lparr>data := Some ((replicate 131073 0)[65536 := 7])\<rparr>) \<and>
   initNativeFlatArray refuse 2 2 2 initial_state = Inr ((), refused_buffer) \<and>
   initialized refused_buffer \<and> in_bounds 1 0 1 refused_buffer \<and>
   setNativeFlatArray 1 0 1 7 refused_buffer = Inl NullDereference"
proof -
  let ?t = "wrapped_buffer\<lparr>data := Some ((replicate 131073 (0::jbyte))[65536 := 7])\<rparr>"
  have d: "data wrapped_buffer = Some (replicate 131073 0)" by (simp add: wrapped_buffer_def)
  have ib: "in_bounds 65536 0 0 wrapped_buffer" "in_bounds 0 65536 0 wrapped_buffer"
    by (simp_all add: in_bounds_def wrapped_buffer_def)
  have o: "offset 65536 0 0 wrapped_buffer = 65536" "offset 0 65536 0 wrapped_buffer = 65536"
    by (simp_all add: offset_def wrapped_buffer_def)
  have o': "offset 0 65536 0 ?t = 65536" by (simp add: offset_def wrapped_buffer_def)
  have ne: "(0::jint, 65536::jint, 0::jint) \<noteq> (65536, 0, 0)" by simp
  have g: "getNativeFlatArray 0 65536 0 wrapped_buffer = Inr (0, wrapped_buffer)"
    by (simp add: getNativeFlatArray_def subscript_read_def o d)
  have w: "setNativeFlatArray 65536 0 0 7 wrapped_buffer = Inr ((), ?t)"
    by (simp add: setNativeFlatArray_def subscript_write_def o d)
  have g': "getNativeFlatArray 0 65536 0 ?t = Inr (7, ?t)"
    by (simp add: getNativeFlatArray_def subscript_read_def o')
  have a: "in_bounds 1 0 1 refused_buffer" by (simp add: in_bounds_def refused_buffer_def)
  have b: "setNativeFlatArray 1 0 1 7 refused_buffer = Inl NullDereference"
    by (simp add: setNativeFlatArray_def subscript_write_def refused_buffer_def)
  have n: "(0::int) \<le> sint (65537::jint)" "(0::int) \<le> sint (1::jint)" by simp_all
  from init_wrapped initialized_wrapped n ib ne g w g' init_refused initialized_refused a b
  show ?thesis by blast
qed

section \<open>What the results depend on\<close>

text \<open>
  Claim C10, as the code has it. When the addressed byte lies inside the storage, the
  byte that \<open>getNativeFlatArray\<close> returns and the storage that \<open>setNativeFlatArray\<close>
  leaves depend on the coordinate (and the byte written), the height, the depth and the
  storage only: from two states that agree on these, whatever their widths, the read
  returns the same byte and the write leaves the same storage and each state's own
  extents. Nothing is said of an access to null or out-of-range storage, whose behaviour
  C leaves undefined. Two runs of \<open>initNativeFlatArray\<close> with the same extents, from any
  two prior states and with any two allocators, agree on the extents and on the length of
  the storage when both allocations are granted; they agree on the whole state when the
  allocators give the same answer to the request.
\<close>

theorem operations_determined:
  "(data s = data t \<and> height s = height t \<and> depth s = depth t \<and>
    getNativeFlatArray i j k s = Inr (b, s') \<longrightarrow>
      getNativeFlatArray i j k t = Inr (b, t)) \<and>
   (data s = data t \<and> height s = height t \<and> depth s = depth t \<and>
    setNativeFlatArray i j k v s = Inr ((), s') \<longrightarrow>
      (\<exists>t'. setNativeFlatArray i j k v t = Inr ((), t') \<and> data t' = data s' \<and>
            width t' = width t \<and> height t' = height t \<and> depth t' = depth t)) \<and>
   (initNativeFlatArray alloc w h d p = Inr ((), u) \<and>
    initNativeFlatArray alloc' w h d p' = Inr ((), u') \<longrightarrow>
      width u = width u' \<and> height u = height u' \<and> depth u = depth u' \<and>
      (\<forall>bs bs'. data u = Some bs \<and> data u' = Some bs' \<longrightarrow> length bs = length bs') \<and>
      (alloc (to_size_t (w * h * d)) = alloc' (to_size_t (w * h * d)) \<longrightarrow> u = u'))"
proof -
  have a: "width u = width u' \<and> height u = height u' \<and> depth u = depth u'"
    if "initNativeFlatArray alloc w h d p = Inr ((), u)"
       "initNativeFlatArray alloc' w h d p' = Inr ((), u')"
    using that by (auto simp: init_result)
  have b: "length bs = length bs'"
    if "initNativeFlatArray alloc w h d p = Inr ((), u)"
       "initNativeFlatArray alloc' w h d p' = Inr ((), u')"
       "data u = Some bs" "data u' = Some bs'" for bs bs'
    using that by (auto simp: init_result dest!: malloc_length)
  have c: "u = u'"
    if "initNativeFlatArray alloc w h d p = Inr ((), u)"
       "initNativeFlatArray alloc' w h d p' = Inr ((), u')"
       "alloc (to_size_t (w * h * d)) = alloc' (to_size_t (w * h * d))"
    using that by (auto simp: init_result malloc_def)
  have g: "getNativeFlatArray i j k t = Inr (b, t)"
    if "data s = data t" "height s = height t" "depth s = depth t"
      "getNativeFlatArray i j k s = Inr (b, s')"
    using that by (rule get_depends_on)
  have q: "\<exists>t'. setNativeFlatArray i j k v t = Inr ((), t') \<and> data t' = data s' \<and>
            width t' = width t \<and> height t' = height t \<and> depth t' = depth t"
    if "data s = data t" "height s = height t" "depth s = depth t"
      "setNativeFlatArray i j k v s = Inr ((), s')"
    using that by (rule set_depends_on)
  have init_part: "initNativeFlatArray alloc w h d p = Inr ((), u) \<and>
    initNativeFlatArray alloc' w h d p' = Inr ((), u') \<longrightarrow>
      width u = width u' \<and> height u = height u' \<and> depth u = depth u' \<and>
      (\<forall>bs bs'. data u = Some bs \<and> data u' = Some bs' \<longrightarrow> length bs = length bs') \<and>
      (alloc (to_size_t (w * h * d)) = alloc' (to_size_t (w * h * d)) \<longrightarrow> u = u')"
    using a b c by blast
  have get_part: "data s = data t \<and> height s = height t \<and> depth s = depth t \<and>
    getNativeFlatArray i j k s = Inr (b, s') \<longrightarrow> getNativeFlatArray i j k t = Inr (b, t)"
    using g by blast
  have set_part: "data s = data t \<and> height s = height t \<and> depth s = depth t \<and>
    setNativeFlatArray i j k v s = Inr ((), s') \<longrightarrow>
      (\<exists>t'. setNativeFlatArray i j k v t = Inr ((), t') \<and> data t' = data s' \<and>
            width t' = width t \<and> height t' = height t \<and> depth t' = depth t)"
    using q by blast
  from get_part set_part init_part show ?thesis by (intro conjI)
qed

theorem operations_determined_witness:
  "data sample_buffer = data (sample_buffer\<lparr>width := 9\<rparr>) \<and>
   height sample_buffer = height (sample_buffer\<lparr>width := 9\<rparr>) \<and>
   depth sample_buffer = depth (sample_buffer\<lparr>width := 9\<rparr>) \<and>
   sample_buffer \<noteq> sample_buffer\<lparr>width := 9\<rparr> \<and>
   getNativeFlatArray 1 2 3 sample_buffer = Inr (23, sample_buffer) \<and>
   getNativeFlatArray 1 2 3 (sample_buffer\<lparr>width := 9\<rparr>) =
     Inr (23, sample_buffer\<lparr>width := 9\<rparr>) \<and>
   setNativeFlatArray 1 2 3 7 sample_buffer =
     Inr ((), sample_buffer\<lparr>data := Some ((map of_nat [0..<24])[23 := 7])\<rparr>) \<and>
   (\<exists>t'. setNativeFlatArray 1 2 3 7 (sample_buffer\<lparr>width := 9\<rparr>) = Inr ((), t') \<and>
         data t' = Some ((map of_nat [0..<24])[23 := 7]) \<and> width t' = 9) \<and>
   initNativeFlatArray (grant 0) 1 1 1 initial_state =
     Inr ((), \<lparr>data = Some [0], width = 1, height = 1, depth = 1\<rparr>) \<and>
   initNativeFlatArray (grant 1) 1 1 1 sample_buffer =
     Inr ((), \<lparr>data = Some [1], width = 1, height = 1, depth = 1\<rparr>) \<and>
   length [0 :: jbyte] = length [1 :: jbyte] \<and>
   grant 0 (to_size_t (1 * 1 * 1)) = grant 0 (to_size_t (1 * 1 * 1)) \<and>
   initNativeFlatArray (grant 0) 1 1 1 initial_state =
     initNativeFlatArray (grant 0) 1 1 1 sample_buffer"
proof -
  let ?s = sample_buffer and ?t = "sample_buffer\<lparr>width := 9\<rparr>"
  let ?s' = "sample_buffer\<lparr>data := Some ((map of_nat [0..<24])[23 := 7])\<rparr>"
  let ?u = "\<lparr>data = Some [0 :: jbyte], width = 1, height = 1, depth = 1\<rparr>"
  let ?u' = "\<lparr>data = Some [1 :: jbyte], width = 1, height = 1, depth = 1\<rparr>"
  have agree: "data ?s = data ?t" "height ?s = height ?t" "depth ?s = depth ?t"
    by simp_all
  have differ: "?s \<noteq> ?t" by (simp add: sample_buffer_def)
  have o: "offset 1 2 3 sample_buffer = 23" by (simp add: offset_def sample_buffer_def)
  have g: "getNativeFlatArray 1 2 3 ?s = Inr (23, ?s)"
    by (simp add: getNativeFlatArray_def o subscript_read_def) (simp add: sample_buffer_def)
  have w: "setNativeFlatArray 1 2 3 7 ?s = Inr ((), ?s')"
    by (simp add: setNativeFlatArray_def o subscript_write_def) (simp add: sample_buffer_def)
  have s1: "to_size_t 1 = 1" by (simp add: to_size_t_def)
  have r: "initNativeFlatArray (grant 0) 1 1 1 initial_state = Inr ((), ?u)"
    by (simp add: init_result malloc_grant s1)
  have r': "initNativeFlatArray (grant 1) 1 1 1 sample_buffer = Inr ((), ?u')"
    by (simp add: init_result malloc_grant s1)
  obtain x where x: "initNativeFlatArray (grant 0) 1 1 1 sample_buffer = Inr ((), x)"
    by (simp add: init_result)
  have d: "data ?u = Some [0]" "data ?u' = Some [1]" by simp_all
  note t1 = operations_determined [where s = ?s and t = ?t and i = 1 and j = 2 and k = 3
      and b = 23 and s' = ?s and v = 7 and alloc = "grant 0" and alloc' = "grant 1"
      and w = 1 and h = 1 and d = 1 and p = initial_state and p' = sample_buffer
      and u = ?u and u' = ?u']
  from t1 [THEN conjunct1] agree g
  have g': "getNativeFlatArray 1 2 3 ?t = Inr (23, ?t)" by blast
  from t1 [THEN conjunct2, THEN conjunct2] r r' d
  have l: "length [0 :: jbyte] = length [1 :: jbyte]" by blast
  note t2 = operations_determined [where s = ?s and t = ?t and i = 1 and j = 2 and k = 3
      and s' = ?s' and v = 7 and alloc = "grant 0" and alloc' = "grant 0"
      and w = 1 and h = 1 and d = 1 and p = initial_state and p' = sample_buffer
      and u = ?u and u' = x]
  from t2 [THEN conjunct2, THEN conjunct1] agree w
  have "\<exists>t'. setNativeFlatArray 1 2 3 7 ?t = Inr ((), t') \<and> data t' = data ?s' \<and>
      width t' = width ?t \<and> height t' = height ?t \<and> depth t' = depth ?t"
    by blast
  then have w': "\<exists>t'. setNativeFlatArray 1 2 3 7 ?t = Inr ((), t') \<and>
      data t' = Some ((map of_nat [0..<24])[23 := 7]) \<and> width t' = 9"
    by auto
  from t2 [THEN conjunct2, THEN conjunct2] r x have "?u = x" by blast
  with r x have e: "initNativeFlatArray (grant 0) 1 1 1 initial_state =
     initNativeFlatArray (grant 0) 1 1 1 sample_buffer"
    by simp
  from agree differ g g' w w' r r' l e show ?thesis by (intro conjI) simp_all
qed

text \<open>
  The contents of a fresh region are the allocator's, not the caller's: from the same
  state and with the same extents, three allocators leave three different states, and a
  read at (0, 0, 0) afterwards returns different bytes.
\<close>

theorem operations_determined_counterexample:
  "initNativeFlatArray (grant 0) 1 1 1 initial_state =
     Inr ((), \<lparr>data = Some [0], width = 1, height = 1, depth = 1\<rparr>) \<and>
   initNativeFlatArray (grant 1) 1 1 1 initial_state =
     Inr ((), \<lparr>data = Some [1], width = 1, height = 1, depth = 1\<rparr>) \<and>
   initNativeFlatArray refuse 1 1 1 initial_state =
     Inr ((), \<lparr>data = None, width = 1, height = 1, depth = 1\<rparr>) \<and>
   initNativeFlatArray (grant 0) 1 1 1 initial_state \<noteq>
     initNativeFlatArray (grant 1) 1 1 1 initial_state \<and>
   getNativeFlatArray 0 0 0 \<lparr>data = Some [0], width = 1, height = 1, depth = 1\<rparr> \<noteq>
     getNativeFlatArray 0 0 0 \<lparr>data = Some [1], width = 1, height = 1, depth = 1\<rparr>"
proof -
  have s1: "to_size_t 1 = 1" by (simp add: to_size_t_def)
  have r0: "initNativeFlatArray (grant 0) 1 1 1 initial_state =
     Inr ((), \<lparr>data = Some [0], width = 1, height = 1, depth = 1\<rparr>)"
    by (simp add: init_result malloc_grant s1)
  have r1: "initNativeFlatArray (grant 1) 1 1 1 initial_state =
     Inr ((), \<lparr>data = Some [1], width = 1, height = 1, depth = 1\<rparr>)"
    by (simp add: init_result malloc_grant s1)
  have r2: "initNativeFlatArray refuse 1 1 1 initial_state =
     Inr ((), \<lparr>data = None, width = 1, height = 1, depth = 1\<rparr>)"
    by (simp add: init_result malloc_refuse)
  have g: "getNativeFlatArray 0 0 0 \<lparr>data = Some [0], width = 1, height = 1, depth = 1\<rparr> \<noteq>
     getNativeFlatArray 0 0 0 \<lparr>data = Some [1], width = 1, height = 1, depth = 1\<rparr>"
    by (simp add: getNativeFlatArray_def offset_def subscript_read_def)
  from r0 r1 r2 g show ?thesis by simp
qed

end
